theory Spec2Isabelle
  imports Main
begin

section \<open>The NPIV volume adapter of nova-powervm\<close>

text \<open>
  A shallow embedding of \<^verbatim>\<open>nova_powervm/virt/powervm/volume/npiv.py\<close>, class
  \<^verbatim>\<open>NPIVVolumeAdapter\<close>. The adapter keeps its state in the instance's
  \<^verbatim>\<open>system_metadata\<close> dictionary and talks to pypowervm (the hypervisor management
  layer). The dictionary is a map from strings to strings, a mutation returns the new
  world, and every pypowervm call is recorded in a log together with what it returned.
\<close>

subsection \<open>Python string operations used by the adapter\<close>

text \<open>
  \<^verbatim>\<open>s.split(c)\<close> for a one-character separator: every occurrence of the separator
  ends a token, so the empty string gives one empty token and \<open>n\<close> separators give
  \<open>n + 1\<close> tokens.
\<close>

fun split_sep :: "char \<Rightarrow> string \<Rightarrow> string list" where
  "split_sep c [] = [[]]"
| "split_sep c (x # xs) =
     (let r = split_sep c xs in if x = c then [] # r else (x # hd r) # tl r)"

text \<open>
  \<^verbatim>\<open>s.split()\<close> without an argument splits at runs of whitespace and drops empty
  tokens. A character here is a code point below 256; the whitespace characters are those
  for which Python's \<^verbatim>\<open>str.isspace\<close> holds in that range: the codes 9 to 13, 28 to
  32, 133 (next line) and 160 (no-break space).
\<close>

definition is_space :: "char \<Rightarrow> bool" where
  "is_space c =
     (let n = (of_char c :: nat)
      in (9 \<le> n \<and> n \<le> 13) \<or> (28 \<le> n \<and> n \<le> 32) \<or> n = 133 \<or> n = 160)"

function split_ws :: "string \<Rightarrow> string list" where
  "split_ws [] = []"
| "split_ws (x # xs) =
     (if is_space x then split_ws xs
      else (x # takeWhile (\<lambda>c. \<not> is_space c) xs)
             # split_ws (dropWhile (\<lambda>c. \<not> is_space c) xs))"
  by pat_completeness auto
termination
  by (relation "measure length") (auto simp: length_dropWhile_le less_Suc_eq_le)

text \<open>\<^verbatim>\<open>sep.join(xs)\<close>.\<close>

fun join :: "string \<Rightarrow> string list \<Rightarrow> string" where
  "join sep [] = []"
| "join sep [x] = x"
| "join sep (x # y # ys) = x @ sep @ join sep (y # ys)"

text \<open>The slice \<^verbatim>\<open>xs[::3]\<close>; \<^verbatim>\<open>xs[1::3]\<close> is \<open>every3 (drop 1 xs)\<close>.\<close>

fun every3 :: "'a list \<Rightarrow> 'a list" where
  "every3 [] = []"
| "every3 (x # xs) = x # every3 (drop 2 xs)"

subsection \<open>Constants\<close>

definition WWPN_SYSTEM_METADATA_KEY :: string where
  "WWPN_SYSTEM_METADATA_KEY = ''npiv_adpt_wwpns''"

definition FABRIC_STATE_METADATA_KEY :: string where
  "FABRIC_STATE_METADATA_KEY = ''fabric_state''"

definition FS_UNMAPPED :: string where
  "FS_UNMAPPED = ''unmapped''"

definition FS_MGMT_MAPPED :: string where
  "FS_MGMT_MAPPED = ''mgmt_mapped''"

definition FS_INST_MAPPED :: string where
  "FS_INST_MAPPED = ''inst_mapped''"

text \<open>
  \<^verbatim>\<open>task_states.DELETING\<close> and \<^verbatim>\<open>task_states.SPAWNING\<close> are constants of nova,
  the strings \<^verbatim>\<open>'deleting'\<close> and \<^verbatim>\<open>'spawning'\<close>.
\<close>

definition TASK_STATES_FOR_DISCONNECT :: "string list" where
  "TASK_STATES_FOR_DISCONNECT = [''deleting'', ''spawning'']"

subsection \<open>The world: the instance and the log of pypowervm calls\<close>

type_synonym port_map = "(string \<times> string) list"

text \<open>
  One entry per call into pypowervm, with its arguments and, where the adapter uses it,
  the value the call returned. \<open>'v\<close> is the type of VIOS wrappers. The port map passed to
  the add and remove calls is an option because \<^verbatim>\<open>connect_volume\<close> passes on whatever
  \<^verbatim>\<open>_get_fabric_meta\<close> returned, which may be \<^verbatim>\<open>None\<close>.
\<close>

datatype 'v call =
    VIOS_Read "'v list"
  | Build_WWPN_Pair "string \<times> string"
  | Derive_NPIV_Map "'v list" "string list" "string list" port_map
  | Get_Mgmt_Partition string
  | Add_NPIV_Port_Mappings string "port_map option"
  | Remove_NPIV_Port_Mappings "port_map option"

record 'v world =
  task_state :: "string option"
  system_metadata :: "string \<rightharpoonup> string"
  calls :: "'v call list"

text \<open>
  What the adapter reads from outside the class. \<^verbatim>\<open>powervm.NPIV_FABRIC_WWPNS\<close> is a
  dictionary from fabric name to the fabric's physical port WWPNs, here the list of its
  items in iteration order; \<^verbatim>\<open>CONF.powervm.ports_per_fabric\<close> is an integer. The
  pypowervm functions are not part of this repository: each is a parameter that gives the
  call's return value from the log of the calls made so far, which lets a collaborator
  answer differently every time it is asked (fresh WWPNs). A collaborator that raises
  aborts the operation in the source; the model follows the runs in which they return.
  \<^verbatim>\<open>build_wwpn_pair\<close> returns a pair of WWPNs.
\<close>

record 'v env =
  NPIV_FABRIC_WWPNS :: "(string \<times> string list) list"
  ports_per_fabric :: int
  vios_read :: "'v call list \<Rightarrow> 'v list"
  build_wwpn_pair :: "'v call list \<Rightarrow> string \<times> string"
  derive_npiv_map :: "'v call list \<Rightarrow> 'v list \<Rightarrow> string list \<Rightarrow> string list \<Rightarrow> port_map"
  get_mgmt_partition :: "'v call list \<Rightarrow> string"

definition log_call :: "'v call \<Rightarrow> 'v world \<Rightarrow> 'v world" where
  "log_call c w = w\<lparr>calls := calls w @ [c]\<rparr>"

definition fabric_names :: "'v env \<Rightarrow> string list" where
  "fabric_names env = map fst (NPIV_FABRIC_WWPNS env)"

text \<open>
  \<^verbatim>\<open>powervm.NPIV_FABRIC_WWPNS[fabric_name]\<close>. The adapter only looks up names it got
  from \<open>fabric_names\<close>, so the lookup never misses there.
\<close>

definition fabric_ports :: "'v env \<Rightarrow> string \<Rightarrow> string list" where
  "fabric_ports env fabric_name =
     (case map_of (NPIV_FABRIC_WWPNS env) fabric_name of Some ports \<Rightarrow> ports | None \<Rightarrow> [])"

subsection \<open>The fabric state store\<close>

definition sys_fabric_state_key :: "string \<Rightarrow> string" where
  "sys_fabric_state_key fabric = FABRIC_STATE_METADATA_KEY @ ''_'' @ fabric"

definition sys_meta_fabric_key :: "string \<Rightarrow> string" where
  "sys_meta_fabric_key fabric = WWPN_SYSTEM_METADATA_KEY @ ''_'' @ fabric"

definition set_fabric_state :: "'v world \<Rightarrow> string \<Rightarrow> string \<Rightarrow> 'v world" where
  "set_fabric_state w fabric state =
     w\<lparr>system_metadata := (system_metadata w)(sys_fabric_state_key fabric \<mapsto> state)\<rparr>"

text \<open>Reading an absent state stores \<open>FS_UNMAPPED\<close> first.\<close>

definition get_fabric_state :: "'v world \<Rightarrow> string \<Rightarrow> string \<times> 'v world" where
  "get_fabric_state w fabric =
     (case system_metadata w (sys_fabric_state_key fabric) of
        None \<Rightarrow> (FS_UNMAPPED, set_fabric_state w fabric FS_UNMAPPED)
      | Some state \<Rightarrow> (state, w))"

text \<open>
  \<^verbatim>\<open>_set_fabric_meta\<close> collects \<^verbatim>\<open>meta_elems\<close>, the physical WWPN of every pair
  followed by \<^verbatim>\<open>v_wwpns.split()\<close>, and stores them joined with commas.
\<close>

definition meta_elems :: "port_map \<Rightarrow> string list" where
  "meta_elems port_map =
     concat (map (\<lambda>(p_wwpn, v_wwpns). p_wwpn # split_ws v_wwpns) port_map)"

definition encode_port_map :: "port_map \<Rightarrow> string" where
  "encode_port_map port_map = join '','' (meta_elems port_map)"

definition set_fabric_meta :: "'v world \<Rightarrow> string \<Rightarrow> port_map \<Rightarrow> 'v world" where
  "set_fabric_meta w fabric port_map =
     w\<lparr>system_metadata :=
         (system_metadata w)(sys_meta_fabric_key fabric \<mapsto> encode_port_map port_map)\<rparr>"

text \<open>
  \<^verbatim>\<open>_get_fabric_meta\<close> splits the stored string at the commas and zips the three
  slices; \<^verbatim>\<open>zip\<close> stops with the shortest of them.
\<close>

definition decode_port_map :: "string \<Rightarrow> port_map" where
  "decode_port_map meta_value =
     (let wwpns = split_sep CHR '','' meta_value
      in map (\<lambda>(p, v1, v2). (p, join '' '' [v1, v2]))
           (zip (every3 wwpns) (zip (every3 (drop 1 wwpns)) (every3 (drop 2 wwpns)))))"

definition get_fabric_meta :: "'v world \<Rightarrow> string \<Rightarrow> port_map option" where
  "get_fabric_meta w fabric =
     (case system_metadata w (sys_meta_fabric_key fabric) of
        None \<Rightarrow> None
      | Some meta_value \<Rightarrow> Some (decode_port_map meta_value))"

subsection \<open>Building the virtual WWPNs of one fabric\<close>

text \<open>
  \<^verbatim>\<open>_build_wwpns_for_fabric\<close>: the loop \<^verbatim>\<open>while i < self._ports_per_fabric()\<close>
  asks for one pair per round and extends the list with both WWPNs of the pair.
\<close>

function build_wwpns_loop ::
  "'v env \<Rightarrow> int \<Rightarrow> string list \<Rightarrow> 'v world \<Rightarrow> string list \<times> 'v world" where
  "build_wwpns_loop env i wwpns w =
     (if i < ports_per_fabric env
      then (let pair = build_wwpn_pair env (calls w)
            in build_wwpns_loop env (i + 1) (wwpns @ [fst pair, snd pair])
                 (log_call (Build_WWPN_Pair pair) w))
      else (wwpns, w))"
  by pat_completeness auto
termination
  by (relation "measure (\<lambda>(env, i, wwpns, w). nat (ports_per_fabric env - i))") auto

declare build_wwpns_loop.simps [simp del]

definition build_wwpns_for_fabric :: "'v env \<Rightarrow> 'v world \<Rightarrow> string list \<times> 'v world" where
  "build_wwpns_for_fabric env w = build_wwpns_loop env 0 [] w"

subsection \<open>Parking on the management partition\<close>

definition add_npiv_mgmt_mappings ::
  "'v env \<Rightarrow> string \<Rightarrow> 'v world \<Rightarrow> port_map \<Rightarrow> 'v world" where
  "add_npiv_mgmt_mappings env fabric w npiv_port_map =
     (let (fc_state, w1) = get_fabric_state w fabric
      in if fc_state = FS_UNMAPPED
         then (let mg_uuid = get_mgmt_partition env (calls w1);
                   w2 = log_call (Get_Mgmt_Partition mg_uuid) w1;
                   w3 = log_call (Add_NPIV_Port_Mappings mg_uuid (Some npiv_port_map)) w2
               in set_fabric_state w3 fabric FS_MGMT_MAPPED)
         else w1)"

definition remove_npiv_mgmt_mappings ::
  "string \<Rightarrow> 'v world \<Rightarrow> port_map option \<Rightarrow> 'v world" where
  "remove_npiv_mgmt_mappings fabric w npiv_port_map =
     (let (fc_state, w1) = get_fabric_state w fabric
      in if fc_state = FS_MGMT_MAPPED
         then set_fabric_state (log_call (Remove_NPIV_Port_Mappings npiv_port_map) w1)
                fabric FS_UNMAPPED
         else w1)"

subsection \<open>connect_volume\<close>

text \<open>The body of the loop over the fabrics, then the loop.\<close>

definition connect_fabric :: "string \<Rightarrow> string \<Rightarrow> 'v world \<Rightarrow> 'v world" where
  "connect_fabric vm_uuid fabric w =
     (let npiv_port_mappings = get_fabric_meta w fabric;
          w1 = remove_npiv_mgmt_mappings fabric w npiv_port_mappings;
          w2 = log_call (Add_NPIV_Port_Mappings vm_uuid npiv_port_mappings) w1
      in set_fabric_state w2 fabric FS_INST_MAPPED)"

fun connect_loop :: "string \<Rightarrow> string list \<Rightarrow> 'v world \<Rightarrow> 'v world" where
  "connect_loop vm_uuid [] w = w"
| "connect_loop vm_uuid (fabric # rest) w =
     connect_loop vm_uuid rest (connect_fabric vm_uuid fabric w)"

definition connect_volume :: "'v env \<Rightarrow> string \<Rightarrow> 'v world \<Rightarrow> 'v world" where
  "connect_volume env vm_uuid w = connect_loop vm_uuid (fabric_names env) w"

subsection \<open>disconnect_volume\<close>

text \<open>
  \<^verbatim>\<open>npiv_port_mappings.extend(self._get_fabric_meta(instance, fabric))\<close> raises
  \<^verbatim>\<open>TypeError\<close> when the fabric has no stored port map, since \<^verbatim>\<open>None\<close> is not
  iterable. Nothing has been changed by then.
\<close>

datatype error = TypeError

fun gather_mappings :: "'v world \<Rightarrow> string list \<Rightarrow> port_map \<Rightarrow> error + port_map" where
  "gather_mappings w [] npiv_port_mappings = Inr npiv_port_mappings"
| "gather_mappings w (fabric # rest) npiv_port_mappings =
     (case get_fabric_meta w fabric of
        None \<Rightarrow> Inl TypeError
      | Some metas \<Rightarrow> gather_mappings w rest (npiv_port_mappings @ metas))"

definition in_disconnect_states :: "string option \<Rightarrow> bool" where
  "in_disconnect_states ts =
     (case ts of None \<Rightarrow> False | Some t \<Rightarrow> t \<in> set TASK_STATES_FOR_DISCONNECT)"

definition disconnect_volume :: "'v env \<Rightarrow> 'v world \<Rightarrow> error + 'v world" where
  "disconnect_volume env w =
     (if \<not> in_disconnect_states (task_state w) then Inr w
      else (case gather_mappings w (fabric_names env) [] of
              Inl e \<Rightarrow> Inl e
            | Inr npiv_port_mappings \<Rightarrow>
                Inr (log_call (Remove_NPIV_Port_Mappings (Some npiv_port_mappings)) w)))"

subsection \<open>wwpns\<close>

text \<open>
  The first loop: it stops at the first fabric without a stored port map
  (\<^verbatim>\<open>bad_fabric\<close>), and otherwise collects the virtual WWPNs of every stored pair with
  \<^verbatim>\<open>meta_val[1].split(' ')\<close>.
\<close>

fun check_fabrics :: "'v world \<Rightarrow> string list \<Rightarrow> string list \<Rightarrow> bool \<times> string list" where
  "check_fabrics w [] wwpn_keys = (False, wwpn_keys)"
| "check_fabrics w (fabric # rest) wwpn_keys =
     (case get_fabric_meta w fabric of
        None \<Rightarrow> (True, wwpn_keys)
      | Some metas \<Rightarrow>
          check_fabrics w rest
            (wwpn_keys @ concat (map (\<lambda>meta_val. split_sep CHR '' '' (snd meta_val)) metas)))"

text \<open>The body of the second loop; it returns the reversed list of VIOS wrappers too.\<close>

definition rebuild_fabric ::
  "'v env \<Rightarrow> string \<Rightarrow> 'v list \<times> string list \<times> 'v world \<Rightarrow> 'v list \<times> string list \<times> 'v world" where
  "rebuild_fabric env fabric st =
     (let (vios_wraps, resp_wwpns, w) = st;
          (v_port_wwpns, w1) = build_wwpns_for_fabric env w;
          port_map = derive_npiv_map env (calls w1) vios_wraps (fabric_ports env fabric)
                       v_port_wwpns;
          w2 = log_call (Derive_NPIV_Map vios_wraps (fabric_ports env fabric) v_port_wwpns
                           port_map) w1;
          w3 = set_fabric_meta w2 fabric port_map;
          w4 = add_npiv_mgmt_mappings env fabric w3 port_map
      in (rev vios_wraps, resp_wwpns @ v_port_wwpns, w4))"

fun rebuild_loop ::
  "'v env \<Rightarrow> string list \<Rightarrow> 'v list \<times> string list \<times> 'v world \<Rightarrow> 'v list \<times> string list \<times> 'v world" where
  "rebuild_loop env [] st = st"
| "rebuild_loop env (fabric # rest) st = rebuild_loop env rest (rebuild_fabric env fabric st)"

definition wwpns :: "'v env \<Rightarrow> 'v world \<Rightarrow> string list \<times> 'v world" where
  "wwpns env w =
     (case check_fabrics w (fabric_names env) [] of
        (False, wwpn_keys) \<Rightarrow> (wwpn_keys, w)
      | (True, wwpn_keys) \<Rightarrow>
          (let vios_wraps = vios_read env (calls w);
               w1 = log_call (VIOS_Read vios_wraps) w;
               (vios_end, resp_wwpns, w2) = rebuild_loop env (fabric_names env) (vios_wraps, [], w1)
           in (resp_wwpns, w2)))"

section \<open>Notions used in the statements\<close>

text \<open>The state of a fabric as \<^verbatim>\<open>_get_fabric_state\<close> reports it.\<close>

definition stored_state :: "'v world \<Rightarrow> string \<Rightarrow> string" where
  "stored_state w fabric = fst (get_fabric_state w fabric)"

text \<open>
  Reading a token list three at a time: a physical WWPN and two virtual WWPNs per triple;
  one or two tokens left at the end belong to no triple.
\<close>

fun triples :: "string list \<Rightarrow> port_map" where
  "triples (p # v1 # v2 # rest) = (p, v1 @ '' '' @ v2) # triples rest"
| "triples _ = []"

text \<open>
  A WWPN is a non-empty token without whitespace and without a comma. A well-formed
  mapping pairs a physical WWPN without a comma with exactly two WWPNs separated by one
  blank.
\<close>

definition wwpn :: "string \<Rightarrow> bool" where
  "wwpn s = (s \<noteq> [] \<and> list_all (\<lambda>c. \<not> is_space c \<and> c \<noteq> CHR '','') s)"

definition two_wwpns :: "string \<Rightarrow> bool" where
  "two_wwpns v = (case split_sep CHR '' '' v of [a, b] \<Rightarrow> wwpn a \<and> wwpn b | _ \<Rightarrow> False)"

definition wf_mapping :: "string \<times> string \<Rightarrow> bool" where
  "wf_mapping m = (CHR '','' \<notin> set (fst m) \<and> two_wwpns (snd m))"

text \<open>An instance as the compute framework creates it, used in the examples.\<close>

definition fresh_instance :: "nat world" where
  "fresh_instance = \<lparr>task_state = None, system_metadata = Map.empty, calls = []\<rparr>"

text \<open>
  Reading the log of a call. \<open>built_pairs\<close> lists the WWPN pairs the build requests
  returned, \<open>derive_args\<close> the list of VIOS wrappers and the physical ports each derive
  request was given, both in the order of the requests.
\<close>

definition pair_list :: "string \<times> string \<Rightarrow> string list" where
  "pair_list pair = [fst pair, snd pair]"

fun built_pairs :: "'v call list \<Rightarrow> (string \<times> string) list" where
  "built_pairs [] = []"
| "built_pairs (Build_WWPN_Pair pair # cs) = pair # built_pairs cs"
| "built_pairs (c # cs) = built_pairs cs"

fun derive_args :: "'v call list \<Rightarrow> ('v list \<times> string list) list" where
  "derive_args [] = []"
| "derive_args (Derive_NPIV_Map vios ports v_wwpns pm # cs) = (vios, ports) # derive_args cs"
| "derive_args (c # cs) = derive_args cs"

text \<open>The pairs that \<open>n\<close> build requests in a row return, the first one asked at \<open>log\<close>.\<close>

fun built :: "'v env \<Rightarrow> nat \<Rightarrow> 'v call list \<Rightarrow> (string \<times> string) list" where
  "built env 0 log = []"
| "built env (Suc n) log =
     (let pair = build_wwpn_pair env log in pair # built env n (log @ [Build_WWPN_Pair pair]))"

text \<open>A list and its reverse in turn, \<open>n\<close> times.\<close>

fun alternate :: "'a list \<Rightarrow> nat \<Rightarrow> 'a list list" where
  "alternate vios 0 = []"
| "alternate vios (Suc n) = vios # alternate (rev vios) n"

text \<open>The two virtual WWPNs of every complete triple of a token list, in order.\<close>

fun virtual_wwpns :: "string list \<Rightarrow> string list" where
  "virtual_wwpns (p # v1 # v2 # rest) = v1 # v2 # virtual_wwpns rest"
| "virtual_wwpns _ = []"






text \<open>
  The invariant of section 3 of the spec for one fabric of one instance: the stored state
  is one of the three states (an absent state reads \<open>FS_UNMAPPED\<close>), and the port map is
  present exactly when the state is \<open>FS_MGMT_MAPPED\<close> or \<open>FS_INST_MAPPED\<close>.
\<close>

definition fabric_invariant :: "'v world \<Rightarrow> string \<Rightarrow> bool" where
  "fabric_invariant w fabric =
     ((stored_state w fabric = FS_UNMAPPED \<or> stored_state w fabric = FS_MGMT_MAPPED
         \<or> stored_state w fabric = FS_INST_MAPPED)
      \<and> ((get_fabric_meta w fabric \<noteq> None)
           = (stored_state w fabric = FS_MGMT_MAPPED \<or> stored_state w fabric = FS_INST_MAPPED)))"

text \<open>
  An example configuration: two fabrics, one virtual port per fabric, two VIOS wrappers
  (the numbers 1 and 2). Every build request returns a pair not returned before (the
  names grow with the log), and the derived map puts every pair of virtual WWPNs on the
  fabric's first physical port.
\<close>

fun pair_up :: "string \<Rightarrow> string list \<Rightarrow> port_map" where
  "pair_up p (a # b # rest) = (p, a @ '' '' @ b) # pair_up p rest"
| "pair_up p _ = []"

definition example_env :: "nat env" where
  "example_env =
     \<lparr>NPIV_FABRIC_WWPNS = [(''A'', [''P1'', ''P2'']), (''B'', [''P3''])],
      ports_per_fabric = 1,
      vios_read = (\<lambda>log. [1, 2]),
      build_wwpn_pair =
        (\<lambda>log. (CHR ''a'' # replicate (length log) CHR ''0'',
                 CHR ''b'' # replicate (length log) CHR ''0'')),
      derive_npiv_map =
        (\<lambda>log vios ports v_wwpns. pair_up (case ports of [] \<Rightarrow> [] | p # _ \<Rightarrow> p) v_wwpns),
      get_mgmt_partition = (\<lambda>log. ''mgmt'')\<rparr>"

text \<open>The fresh instance after \<open>wwpns\<close>, and after \<open>connect_volume\<close> on top of that.\<close>

definition parked_instance :: "nat world" where
  "parked_instance = snd (wwpns example_env fresh_instance)"

definition attached_instance :: "nat world" where
  "attached_instance = connect_volume example_env ''vm'' parked_instance"

text \<open>
  An instance that has a stored port map for fabric A only, as when fabric B was added
  to the configuration later.
\<close>

definition half_provisioned :: "nat world" where
  "half_provisioned =
     \<lparr>task_state = None,
      system_metadata =
        [sys_meta_fabric_key ''A'' \<mapsto> ''P1,old1,old2'',
         sys_fabric_state_key ''A'' \<mapsto> FS_MGMT_MAPPED],
      calls = []\<rparr>"

section \<open>Properties\<close>

subsection \<open>Strings\<close>

lemma split_sep_not_Nil [simp]: "split_sep c s \<noteq> []"
  by (induction s) (auto simp: Let_def)

lemma split_sep_no_sep: "c \<notin> set t \<Longrightarrow> split_sep c t = [t]"
  by (induction t) (auto simp: Let_def)

lemma split_sep_token: "c \<notin> set t \<Longrightarrow> split_sep c (t @ c # rest) = t # split_sep c rest"
  by (induction t) (auto simp: Let_def)

lemma join_split_sep: "join [c] (split_sep c s) = s"
proof (induction s)
  case Nil
  then show ?case by simp
next
  case (Cons x xs)
  obtain r rs where r: "split_sep c xs = r # rs"
    by (cases "split_sep c xs") auto
  with Cons show ?case
    by (cases rs) (auto simp: Let_def)
qed

lemma split_sep_join:
  "toks \<noteq> [] \<Longrightarrow> \<forall>t\<in>set toks. c \<notin> set t \<Longrightarrow> split_sep c (join [c] toks) = toks"
proof (induction "[c]" toks rule: join.induct)
  case 1
  then show ?case by simp
next
  case (2 x)
  then show ?case by (simp add: split_sep_no_sep)
next
  case (3 x y ys)
  then show ?case by (simp add: split_sep_token)
qed

lemma is_space_blank [simp]: "is_space CHR '' ''"
  by (simp add: is_space_def)

lemma split_ws_no_space:
  assumes "t \<noteq> []" and a: "\<forall>c\<in>set t. \<not> is_space c"
  shows "split_ws t = [t]"
proof (cases t)
  case Nil
  then show ?thesis using assms by simp
next
  case (Cons x xs)
  with a have tw: "takeWhile (\<lambda>c. \<not> is_space c) xs = xs"
    and dw: "dropWhile (\<lambda>c. \<not> is_space c) xs = []"
    by simp_all
  from Cons a show ?thesis
    by (simp add: tw dw del: dropWhile_eq_Nil_conv takeWhile_eq_all_conv)
qed

lemma split_ws_token:
  assumes "t \<noteq> []" "\<forall>c\<in>set t. \<not> is_space c" "is_space s"
  shows "split_ws (t @ s # rest) = t # split_ws rest"
proof (cases t)
  case Nil
  with assms show ?thesis by simp
next
  case (Cons x xs)
  with assms have "takeWhile (\<lambda>c. \<not> is_space c) (xs @ s # rest) = xs"
    by (simp add: takeWhile_append2)
  moreover from Cons assms have "dropWhile (\<lambda>c. \<not> is_space c) (xs @ s # rest) = s # rest"
    by (simp add: dropWhile_append2)
  ultimately show ?thesis using Cons assms by simp
qed

lemma two_wwpnsD:
  assumes "two_wwpns v"
  obtains a b where "v = a @ '' '' @ b" "wwpn a" "wwpn b"
proof -
  from assms obtain a b where ab: "split_sep CHR '' '' v = [a, b]" "wwpn a" "wwpn b"
    by (auto simp: two_wwpns_def split: list.splits)
  have "join '' '' (split_sep CHR '' '' v) = v"
    by (rule join_split_sep)
  with ab have "v = a @ '' '' @ b" by simp
  with ab that show thesis by blast
qed

lemma split_ws_two_wwpns:
  assumes "wwpn a" "wwpn b"
  shows "split_ws (a @ CHR '' '' # b) = [a, b]"
proof -
  from assms have a: "a \<noteq> []" "\<forall>c\<in>set a. \<not> is_space c"
    and b: "b \<noteq> []" "\<forall>c\<in>set b. \<not> is_space c"
    by (auto simp: wwpn_def list_all_iff)
  have "split_ws (a @ CHR '' '' # b) = a # split_ws b"
    using a by (intro split_ws_token) simp_all
  with b show ?thesis by (simp add: split_ws_no_space)
qed

subsection \<open>The stored encoding\<close>

lemma decode_port_map_triples: "decode_port_map s = triples (split_sep CHR '','' s)"
proof -
  have "map (\<lambda>(p, v1, v2). (p, join '' '' [v1, v2]))
          (zip (every3 toks) (zip (every3 (drop 1 toks)) (every3 (drop 2 toks)))) = triples toks"
    for toks
    by (induction toks rule: triples.induct) simp_all
  then show ?thesis by (simp add: decode_port_map_def Let_def)
qed

lemma length_triples: "length (triples toks) = length toks div 3"
  by (induction toks rule: triples.induct) simp_all

lemma triples_meta_elems:
  "\<forall>m\<in>set x. wf_mapping m \<Longrightarrow> triples (meta_elems x) = x"
proof (induction x)
  case Nil
  then show ?case by (simp add: meta_elems_def)
next
  case (Cons m x)
  obtain p v where m: "m = (p, v)" by (cases m)
  with Cons.prems have "two_wwpns v" by (simp add: wf_mapping_def)
  then obtain a b where v: "v = a @ '' '' @ b" "wwpn a" "wwpn b"
    by (rule two_wwpnsD)
  then have "split_ws v = [a, b]" by (simp add: split_ws_two_wwpns)
  with Cons m v show ?case by (simp add: meta_elems_def)
qed

lemma meta_elems_no_comma:
  "\<forall>m\<in>set x. wf_mapping m \<Longrightarrow> \<forall>t\<in>set (meta_elems x). CHR '','' \<notin> set t"
proof (induction x)
  case Nil
  then show ?case by (simp add: meta_elems_def)
next
  case (Cons m x)
  obtain p v where m: "m = (p, v)" by (cases m)
  with Cons.prems have p: "CHR '','' \<notin> set p" and "two_wwpns v"
    by (simp_all add: wf_mapping_def)
  then obtain a b where v: "v = a @ '' '' @ b" "wwpn a" "wwpn b"
    by (auto elim: two_wwpnsD)
  then have sw: "split_ws v = [a, b]" by (simp add: split_ws_two_wwpns)
  from v have "CHR '','' \<notin> set a" "CHR '','' \<notin> set b"
    by (auto simp: wwpn_def list_all_iff)
  with Cons m p sw show ?case by (simp add: meta_elems_def)
qed

lemma decode_encode:
  assumes "\<forall>m\<in>set x. wf_mapping m"
  shows "decode_port_map (encode_port_map x) = x"
proof (cases "meta_elems x = []")
  case True
  then have "triples (meta_elems x) = []" by simp
  with assms have "x = []" by (simp add: triples_meta_elems)
  then show ?thesis
    by (simp add: decode_port_map_triples encode_port_map_def meta_elems_def)
next
  case False
  with assms have "split_sep CHR '','' (join '','' (meta_elems x)) = meta_elems x"
    by (intro split_sep_join meta_elems_no_comma)
  with assms show ?thesis
    by (simp add: decode_port_map_triples encode_port_map_def triples_meta_elems)
qed

subsection \<open>Metadata keys\<close>

lemma sys_meta_fabric_key_inj [simp]:
  "(sys_meta_fabric_key f = sys_meta_fabric_key g) = (f = g)"
  by (simp add: sys_meta_fabric_key_def)

lemma sys_fabric_state_key_inj [simp]:
  "(sys_fabric_state_key f = sys_fabric_state_key g) = (f = g)"
  by (simp add: sys_fabric_state_key_def)

lemma meta_key_neq_state_key [simp]:
  "sys_meta_fabric_key f \<noteq> sys_fabric_state_key g"
  "sys_fabric_state_key g \<noteq> sys_meta_fabric_key f"
  by (simp_all add: sys_meta_fabric_key_def sys_fabric_state_key_def
        WWPN_SYSTEM_METADATA_KEY_def FABRIC_STATE_METADATA_KEY_def)

lemma FS_distinct [simp]:
  "FS_UNMAPPED \<noteq> FS_MGMT_MAPPED" "FS_MGMT_MAPPED \<noteq> FS_UNMAPPED"
  "FS_UNMAPPED \<noteq> FS_INST_MAPPED" "FS_INST_MAPPED \<noteq> FS_UNMAPPED"
  "FS_MGMT_MAPPED \<noteq> FS_INST_MAPPED" "FS_INST_MAPPED \<noteq> FS_MGMT_MAPPED"
  by (simp_all add: FS_UNMAPPED_def FS_MGMT_MAPPED_def FS_INST_MAPPED_def)

subsection \<open>The store\<close>

lemma log_call_simps [simp]:
  "calls (log_call c w) = calls w @ [c]"
  "system_metadata (log_call c w) = system_metadata w"
  "task_state (log_call c w) = task_state w"
  by (simp_all add: log_call_def)

lemma set_fabric_state_simps [simp]:
  "calls (set_fabric_state w f s) = calls w"
  "system_metadata (set_fabric_state w f s) = (system_metadata w)(sys_fabric_state_key f \<mapsto> s)"
  "task_state (set_fabric_state w f s) = task_state w"
  by (simp_all add: set_fabric_state_def)

lemma set_fabric_meta_simps [simp]:
  "calls (set_fabric_meta w f pm) = calls w"
  "system_metadata (set_fabric_meta w f pm) =
     (system_metadata w)(sys_meta_fabric_key f \<mapsto> encode_port_map pm)"
  "task_state (set_fabric_meta w f pm) = task_state w"
  by (simp_all add: set_fabric_meta_def)

lemma world_eqI:
  "calls w = calls w' \<Longrightarrow> system_metadata w = system_metadata w' \<Longrightarrow>
   task_state w = task_state w' \<Longrightarrow> (w :: 'v world) = w'"
  by simp

lemma stored_state_alt:
  "stored_state w f =
     (case system_metadata w (sys_fabric_state_key f) of None \<Rightarrow> FS_UNMAPPED | Some s \<Rightarrow> s)"
  by (simp add: stored_state_def get_fabric_state_def split: option.splits)

lemma get_fabric_state_eq:
  "get_fabric_state w f = (stored_state w f, set_fabric_state w f (stored_state w f))"
  by (auto simp: stored_state_alt get_fabric_state_def intro!: world_eqI split: option.splits)

lemma stored_state_set_fabric_state [simp]:
  "stored_state (set_fabric_state w g s) f = (if f = g then s else stored_state w f)"
  by (simp add: stored_state_alt)

lemma stored_state_frame [simp]:
  "stored_state (log_call c w) f = stored_state w f"
  "stored_state (set_fabric_meta w g pm) f = stored_state w f"
  by (simp_all add: stored_state_alt)

lemma get_fabric_meta_frame [simp]:
  "get_fabric_meta (log_call c w) f = get_fabric_meta w f"
  "get_fabric_meta (set_fabric_state w g s) f = get_fabric_meta w f"
  by (simp_all add: get_fabric_meta_def)

lemma get_fabric_meta_set_fabric_meta [simp]:
  "get_fabric_meta (set_fabric_meta w g pm) f =
     (if f = g then Some (decode_port_map (encode_port_map pm)) else get_fabric_meta w f)"
  by (simp add: get_fabric_meta_def)

lemma set_fabric_state_twice [simp]:
  "set_fabric_state (set_fabric_state w f s) f s' = set_fabric_state w f s'"
  by (simp add: set_fabric_state_def)

lemma add_npiv_mgmt_mappings_eq:
  "add_npiv_mgmt_mappings env fabric w pm =
     (if stored_state w fabric = FS_UNMAPPED
      then set_fabric_state
             (log_call (Add_NPIV_Port_Mappings (get_mgmt_partition env (calls w)) (Some pm))
               (log_call (Get_Mgmt_Partition (get_mgmt_partition env (calls w))) w))
             fabric FS_MGMT_MAPPED
      else set_fabric_state w fabric (stored_state w fabric))"
  by (auto simp: add_npiv_mgmt_mappings_def get_fabric_state_eq Let_def intro!: world_eqI)

lemma remove_npiv_mgmt_mappings_eq:
  "remove_npiv_mgmt_mappings fabric w pm =
     (if stored_state w fabric = FS_MGMT_MAPPED
      then set_fabric_state (log_call (Remove_NPIV_Port_Mappings pm) w) fabric FS_UNMAPPED
      else set_fabric_state w fabric (stored_state w fabric))"
  by (auto simp: remove_npiv_mgmt_mappings_def get_fabric_state_eq Let_def intro!: world_eqI)

lemma connect_fabric_eq:
  "connect_fabric vm_uuid fabric w =
     set_fabric_state
       (w\<lparr>calls := calls w
            @ (if stored_state w fabric = FS_MGMT_MAPPED
               then [Remove_NPIV_Port_Mappings (get_fabric_meta w fabric)] else [])
            @ [Add_NPIV_Port_Mappings vm_uuid (get_fabric_meta w fabric)]\<rparr>)
       fabric FS_INST_MAPPED"
  by (auto simp: connect_fabric_def remove_npiv_mgmt_mappings_eq Let_def intro!: world_eqI)

subsection \<open>connect_volume\<close>

lemma connect_loop_task_state [simp]:
  "task_state (connect_loop vm fs w) = task_state w"
  by (induction fs arbitrary: w) (simp_all add: connect_fabric_eq)

lemma connect_loop_metadata:
  "system_metadata (connect_loop vm fs w) k =
     (if k \<in> sys_fabric_state_key ` set fs then Some FS_INST_MAPPED else system_metadata w k)"
  by (induction fs arbitrary: w) (auto simp: connect_fabric_eq)

lemma connect_loop_get_fabric_meta [simp]:
  "get_fabric_meta (connect_loop vm fs w) f = get_fabric_meta w f"
  by (simp add: get_fabric_meta_def connect_loop_metadata image_iff)

lemma connect_loop_stored_state:
  "stored_state (connect_loop vm fs w) f =
     (if f \<in> set fs then FS_INST_MAPPED else stored_state w f)"
  by (auto simp: stored_state_alt connect_loop_metadata image_iff)

lemma set_stored_state_idem:
  "system_metadata w (sys_fabric_state_key f) = Some s \<Longrightarrow> set_fabric_state w f s = w"
  by (auto intro!: world_eqI simp: fun_upd_idem_iff)


lemma calls_update_frame [simp]:
  "get_fabric_meta (w\<lparr>calls := cs\<rparr>) f = get_fabric_meta w f"
  "stored_state (w\<lparr>calls := cs\<rparr>) f = stored_state w f"
  by (simp_all add: get_fabric_meta_def stored_state_alt)


subsection \<open>The table of virtual Fibre Channel mappings\<close>








lemma connect_fabric_get_fabric_meta [simp]:
  "get_fabric_meta (connect_fabric vm g w) f = get_fabric_meta w f"
  by (simp add: connect_fabric_eq get_fabric_meta_def)



subsection \<open>Building and rebuilding\<close>

lemma length_built [simp]: "length (built env n log) = n"
  by (induction n arbitrary: log) (simp_all add: Let_def)

lemma built_pairs_append [simp]: "built_pairs (cs @ ds) = built_pairs cs @ built_pairs ds"
  by (induction cs rule: built_pairs.induct) simp_all

lemma derive_args_append [simp]: "derive_args (cs @ ds) = derive_args cs @ derive_args ds"
  by (induction cs rule: derive_args.induct) simp_all

lemma built_pairs_builds [simp]: "built_pairs (map Build_WWPN_Pair ps) = ps"
  by (induction ps) simp_all

lemma derive_args_builds [simp]: "derive_args (map Build_WWPN_Pair ps) = []"
  by (induction ps) simp_all

lemma build_wwpns_loop_eq:
  "build_wwpns_loop env i acc w =
     (acc @ concat (map pair_list (built env (nat (ports_per_fabric env - i)) (calls w))),
      w\<lparr>calls := calls w @ map Build_WWPN_Pair (built env (nat (ports_per_fabric env - i)) (calls w))\<rparr>)"
proof (induction env i acc w rule: build_wwpns_loop.induct)
  case (1 env i acc w)
  show ?case
  proof (cases "i < ports_per_fabric env")
    case True
    then have n: "nat (ports_per_fabric env - i) = Suc (nat (ports_per_fabric env - (i + 1)))"
      by simp
    note IH = "1.IH" [OF True refl]
    have upd: "(log_call c w)\<lparr>calls := cs\<rparr> = w\<lparr>calls := cs\<rparr>" for c cs
      by (simp add: log_call_def)
    have pl: "pair_list p = [fst p, snd p]" for p
      by (simp add: pair_list_def)
    from True show ?thesis
      by (subst build_wwpns_loop.simps) (simp add: IH n Let_def upd pair_list_def [abs_def])
  next
    case False
    then show ?thesis
      by (subst build_wwpns_loop.simps) simp
  qed
qed


lemma rebuild_fabric_cases:
  obtains pairs pm tail w' where
    "rebuild_fabric env f (vios, resp, w) = (rev vios, resp @ concat (map pair_list pairs), w')"
    "length pairs = nat (ports_per_fabric env)"
    "calls w' = calls w @ map Build_WWPN_Pair pairs
       @ [Derive_NPIV_Map vios (fabric_ports env f) (concat (map pair_list pairs)) pm] @ tail"
    "built_pairs tail = []" "derive_args tail = []"
    "system_metadata w' (sys_meta_fabric_key f) = Some (encode_port_map pm)"
    "\<And>k. k \<noteq> sys_meta_fabric_key f \<Longrightarrow> k \<noteq> sys_fabric_state_key f \<Longrightarrow>
       system_metadata w' k = system_metadata w k"
    "\<And>g. stored_state w' g =
       (if g = f \<and> stored_state w f = FS_UNMAPPED then FS_MGMT_MAPPED else stored_state w g)"
    "task_state w' = task_state w"
proof -
  define pairs where "pairs = built env (nat (ports_per_fabric env)) (calls w)"
  define pool where "pool = concat (map pair_list pairs)"
  define log1 where "log1 = calls w @ map Build_WWPN_Pair pairs"
  define pm where "pm = derive_npiv_map env log1 vios (fabric_ports env f) pool"
  define w3 where "w3 = set_fabric_meta
     (log_call (Derive_NPIV_Map vios (fabric_ports env f) pool pm) (w\<lparr>calls := log1\<rparr>)) f pm"
  define w' where "w' = add_npiv_mgmt_mappings env f w3 pm"
  define tail where "tail = (if stored_state w f = FS_UNMAPPED
     then [Get_Mgmt_Partition (get_mgmt_partition env (calls w3)),
           Add_NPIV_Port_Mappings (get_mgmt_partition env (calls w3)) (Some pm)]
     else [] :: 'a call list)"
  have st3: "stored_state w3 g = stored_state w g" for g
    by (simp add: w3_def)
  have 1: "rebuild_fabric env f (vios, resp, w) = (rev vios, resp @ pool, w')"
    by (simp add: rebuild_fabric_def build_wwpns_for_fabric_def build_wwpns_loop_eq Let_def
        w'_def w3_def pm_def log1_def pool_def pairs_def)
  have 2: "length pairs = nat (ports_per_fabric env)"
    by (simp add: pairs_def)
  have 3: "calls w' = calls w @ map Build_WWPN_Pair pairs
       @ [Derive_NPIV_Map vios (fabric_ports env f) pool pm] @ tail"
    by (simp add: w'_def add_npiv_mgmt_mappings_eq st3 tail_def) (simp add: w3_def log1_def)
  have 4: "built_pairs tail = []" "derive_args tail = []"
    by (simp_all add: tail_def)
  have 5: "system_metadata w' (sys_meta_fabric_key f) = Some (encode_port_map pm)"
    by (simp add: w'_def add_npiv_mgmt_mappings_eq st3) (simp add: w3_def)
  have 6: "system_metadata w' k = system_metadata w k"
    if "k \<noteq> sys_meta_fabric_key f" "k \<noteq> sys_fabric_state_key f" for k
    using that by (simp add: w'_def add_npiv_mgmt_mappings_eq st3) (simp add: w3_def)
  have 7: "stored_state w' g =
       (if g = f \<and> stored_state w f = FS_UNMAPPED then FS_MGMT_MAPPED else stored_state w g)" for g
    by (simp add: w'_def add_npiv_mgmt_mappings_eq st3)
  have 8: "task_state w' = task_state w"
    by (simp add: w'_def add_npiv_mgmt_mappings_eq st3) (simp add: w3_def)
  from 1 2 3 4 5 6 7 8 show thesis
    unfolding pool_def by (rule that)
qed


lemma rebuild_loop_log:
  "\<exists>vios' ext w'.
     rebuild_loop env fs (vios, resp, w)
       = (vios', resp @ concat (map pair_list (built_pairs ext)), w')
     \<and> calls w' = calls w @ ext
     \<and> length (built_pairs ext) = length fs * nat (ports_per_fabric env)
     \<and> derive_args ext = zip (alternate vios (length fs)) (map (fabric_ports env) fs)
     \<and> task_state w' = task_state w"
proof (induction fs arbitrary: vios resp w)
  case Nil
  show ?case by (rule exI [of _ vios], rule exI [of _ "[]"]) simp
next
  case (Cons f fs)
  obtain pairs pm tail w1 where step:
    "rebuild_fabric env f (vios, resp, w) = (rev vios, resp @ concat (map pair_list pairs), w1)"
    "length pairs = nat (ports_per_fabric env)"
    "calls w1 = calls w @ map Build_WWPN_Pair pairs
       @ [Derive_NPIV_Map vios (fabric_ports env f) (concat (map pair_list pairs)) pm] @ tail"
    "built_pairs tail = []" "derive_args tail = []"
    "task_state w1 = task_state w"
    by (rule rebuild_fabric_cases [of env f vios resp w]) blast
  from Cons.IH [of "rev vios" "resp @ concat (map pair_list pairs)" w1]
  obtain vios' ext w' where rest:
    "rebuild_loop env fs (rev vios, resp @ concat (map pair_list pairs), w1)
       = (vios', (resp @ concat (map pair_list pairs)) @ concat (map pair_list (built_pairs ext)), w')"
    "calls w' = calls w1 @ ext"
    "length (built_pairs ext) = length fs * nat (ports_per_fabric env)"
    "derive_args ext = zip (alternate (rev vios) (length fs)) (map (fabric_ports env) fs)"
    "task_state w' = task_state w1"
    by blast
  let ?ext = "map Build_WWPN_Pair pairs
       @ [Derive_NPIV_Map vios (fabric_ports env f) (concat (map pair_list pairs)) pm] @ tail @ ext"
  have "rebuild_loop env (f # fs) (vios, resp, w)
       = (vios', resp @ concat (map pair_list (built_pairs ?ext)), w')"
    using step rest by simp
  moreover have "calls w' = calls w @ ?ext"
    using step rest by simp
  moreover have "length (built_pairs ?ext) = length (f # fs) * nat (ports_per_fabric env)"
    using step rest by simp
  moreover have "derive_args ?ext
      = zip (alternate vios (length (f # fs))) (map (fabric_ports env) (f # fs))"
    using step rest by simp
  moreover have "task_state w' = task_state w"
    using step rest by simp
  ultimately show ?case by blast
qed

lemma rebuild_loop_frame:
  assumes "rebuild_loop env fs (vios, resp, w) = (vios', resp', w')"
    and "k \<notin> sys_meta_fabric_key ` set fs" "k \<notin> sys_fabric_state_key ` set fs"
  shows "system_metadata w' k = system_metadata w k"
  using assms
proof (induction fs arbitrary: vios resp w)
  case Nil
  then show ?case by simp
next
  case (Cons f fs)
  obtain pairs w1 where step:
    "rebuild_fabric env f (vios, resp, w) = (rev vios, resp @ concat (map pair_list pairs), w1)"
    "\<And>k. k \<noteq> sys_meta_fabric_key f \<Longrightarrow> k \<noteq> sys_fabric_state_key f \<Longrightarrow>
       system_metadata w1 k = system_metadata w k"
    by (rule rebuild_fabric_cases [of env f vios resp w]) blast
  from Cons.prems step have "system_metadata w' k = system_metadata w1 k"
    by (intro Cons.IH [of "rev vios" "resp @ concat (map pair_list pairs)" w1]) simp_all
  with Cons.prems step show ?case by simp
qed

lemma rebuild_loop_extends:
  assumes "rebuild_loop env fs (vios, resp, w) = (vios', resp', w')"
  shows "\<exists>ext. calls w' = calls w @ ext"
  using rebuild_loop_log [of env fs vios resp w] assms by auto

lemma rebuild_loop_episode:
  assumes "rebuild_loop env fs (vios, resp, w) = (vios', resp', w')" and "f \<in> set fs"
  shows "\<exists>v pairs pm pre post.
           length pairs = nat (ports_per_fabric env)
           \<and> calls w' = calls w @ pre @ map Build_WWPN_Pair pairs
               @ [Derive_NPIV_Map v (fabric_ports env f) (concat (map pair_list pairs)) pm] @ post
           \<and> system_metadata w' (sys_meta_fabric_key f) = Some (encode_port_map pm)"
  using assms
proof (induction fs arbitrary: vios resp w)
  case Nil
  then show ?case by simp
next
  case (Cons g fs)
  obtain pairs pm tail w1 where step:
    "rebuild_fabric env g (vios, resp, w) = (rev vios, resp @ concat (map pair_list pairs), w1)"
    "length pairs = nat (ports_per_fabric env)"
    "calls w1 = calls w @ map Build_WWPN_Pair pairs
       @ [Derive_NPIV_Map vios (fabric_ports env g) (concat (map pair_list pairs)) pm] @ tail"
    "system_metadata w1 (sys_meta_fabric_key g) = Some (encode_port_map pm)"
    by (rule rebuild_fabric_cases [of env g vios resp w]) blast
  from Cons.prems step have rest:
    "rebuild_loop env fs (rev vios, resp @ concat (map pair_list pairs), w1) = (vios', resp', w')"
    by simp
  show ?case
  proof (cases "f \<in> set fs")
    case True
    from Cons.IH [OF rest True] obtain v ps pm' pre post where
      "length ps = nat (ports_per_fabric env)"
      "calls w' = calls w1 @ pre @ map Build_WWPN_Pair ps
               @ [Derive_NPIV_Map v (fabric_ports env f) (concat (map pair_list ps)) pm'] @ post"
      "system_metadata w' (sys_meta_fabric_key f) = Some (encode_port_map pm')"
      by blast
    with step(3) have "length ps = nat (ports_per_fabric env)
       \<and> calls w' = calls w @ (map Build_WWPN_Pair pairs
       @ [Derive_NPIV_Map vios (fabric_ports env g) (concat (map pair_list pairs)) pm] @ tail @ pre)
           @ map Build_WWPN_Pair ps
               @ [Derive_NPIV_Map v (fabric_ports env f) (concat (map pair_list ps)) pm'] @ post
       \<and> system_metadata w' (sys_meta_fabric_key f) = Some (encode_port_map pm')"
      by simp
    then show ?thesis by blast
  next
    case False
    with Cons.prems have fg: "f = g" by simp
    from rebuild_loop_extends [OF rest] obtain ext where ext: "calls w' = calls w1 @ ext" ..
    from False fg have "system_metadata w' (sys_meta_fabric_key g)
        = system_metadata w1 (sys_meta_fabric_key g)"
      by (intro rebuild_loop_frame [OF rest]) auto
    with step ext fg have "length pairs = nat (ports_per_fabric env)
       \<and> calls w' = calls w @ [] @ map Build_WWPN_Pair pairs
       @ [Derive_NPIV_Map vios (fabric_ports env f) (concat (map pair_list pairs)) pm] @ (tail @ ext)
       \<and> system_metadata w' (sys_meta_fabric_key f) = Some (encode_port_map pm)"
      by simp
    then show ?thesis by blast
  qed
qed

lemma rebuild_loop_states:
  assumes "rebuild_loop env fs (vios, resp, w) = (vios', resp', w')"
  shows "stored_state w' g =
           (if g \<in> set fs \<and> stored_state w g = FS_UNMAPPED then FS_MGMT_MAPPED
            else stored_state w g)"
  using assms
proof (induction fs arbitrary: vios resp w)
  case Nil
  then show ?case by simp
next
  case (Cons f fs)
  obtain pairs w1 where step:
    "rebuild_fabric env f (vios, resp, w) = (rev vios, resp @ concat (map pair_list pairs), w1)"
    "\<And>g. stored_state w1 g =
       (if g = f \<and> stored_state w f = FS_UNMAPPED then FS_MGMT_MAPPED else stored_state w g)"
    by (rule rebuild_fabric_cases [of env f vios resp w]) blast
  from Cons.prems step have rest:
    "rebuild_loop env fs (rev vios, resp @ concat (map pair_list pairs), w1) = (vios', resp', w')"
    by simp
  show ?case
    unfolding Cons.IH [OF rest] step(2) by auto
qed

lemma rebuild_loop_meta_present:
  assumes "rebuild_loop env fs (vios, resp, w) = (vios', resp', w')" "g \<in> set fs"
  shows "system_metadata w' (sys_meta_fabric_key g) \<noteq> None"
  using rebuild_loop_episode [OF assms] by auto

lemma alternate_nth:
  "k < n \<Longrightarrow> alternate vios n ! k = (if even k then vios else rev vios)"
proof (induction n arbitrary: vios k)
  case 0
  then show ?case by simp
next
  case (Suc n)
  then show ?case by (cases k) auto
qed

lemma length_alternate [simp]: "length (alternate vios n) = n"
  by (induction n arbitrary: vios) simp_all


subsection \<open>wwpns\<close>

lemma check_fabrics_present:
  "map (\<lambda>f. system_metadata w (sys_meta_fabric_key f)) fs = map Some vals \<Longrightarrow>
   check_fabrics w fs acc =
     (False, acc @ concat (map (\<lambda>s. concat (map (\<lambda>m. split_sep CHR '' '' (snd m))
                                               (decode_port_map s))) vals))"
proof (induction fs arbitrary: vals acc)
  case Nil
  then show ?case by simp
next
  case (Cons f fs)
  then obtain s rest where "vals = s # rest" by (cases vals) auto
  with Cons show ?case by (simp add: get_fabric_meta_def)
qed

lemma check_fabrics_bad:
  "f \<in> set fs \<Longrightarrow> get_fabric_meta w f = None \<Longrightarrow> fst (check_fabrics w fs acc)"
  by (induction fs arbitrary: acc) (auto split: option.splits)

lemma split_blank_triples:
  "\<forall>t\<in>set toks. CHR '' '' \<notin> set t \<Longrightarrow>
   concat (map (\<lambda>m. split_sep CHR '' '' (snd m)) (triples toks)) = virtual_wwpns toks"
  by (induction toks rule: triples.induct)
     (simp_all add: split_sep_token split_sep_no_sep)

lemma wwpns_rebuild:
  assumes "f \<in> set (fabric_names env)" "get_fabric_meta w f = None"
  shows "wwpns env w =
     (let vios_wraps = vios_read env (calls w);
          r = rebuild_loop env (fabric_names env)
                (vios_wraps, [], log_call (VIOS_Read vios_wraps) w)
      in (fst (snd r), snd (snd r)))"
proof -
  from assms have "fst (check_fabrics w (fabric_names env) [])"
    by (rule check_fabrics_bad)
  then show ?thesis
    by (cases "check_fabrics w (fabric_names env) []")
       (simp add: wwpns_def Let_def split: prod.splits)
qed

subsection \<open>The example run\<close>

lemma example_names [simp]: "fabric_names example_env = [''A'', ''B'']"
  by (simp add: fabric_names_def example_env_def)

lemma fresh_meta [simp]: "get_fabric_meta fresh_instance f = None"
  by (simp add: get_fabric_meta_def fresh_instance_def)

lemma fresh_state [simp]: "stored_state fresh_instance f = FS_UNMAPPED"
  by (simp add: stored_state_alt fresh_instance_def)

lemma wwpns_example:
  "wwpns example_env fresh_instance =
    ([''a0'', ''b0'', ''a00000'', ''b00000''],
     \<lparr>task_state = None,
      system_metadata =
        [sys_meta_fabric_key ''A'' \<mapsto> ''P1,a0,b0'', sys_fabric_state_key ''A'' \<mapsto> FS_MGMT_MAPPED,
         sys_meta_fabric_key ''B'' \<mapsto> ''P3,a00000,b00000'',
         sys_fabric_state_key ''B'' \<mapsto> FS_MGMT_MAPPED],
      calls =
        [VIOS_Read [1, 2],
         Build_WWPN_Pair (''a0'', ''b0''),
         Derive_NPIV_Map [1, 2] [''P1'', ''P2''] [''a0'', ''b0''] [(''P1'', ''a0 b0'')],
         Get_Mgmt_Partition ''mgmt'',
         Add_NPIV_Port_Mappings ''mgmt'' (Some [(''P1'', ''a0 b0'')]),
         Build_WWPN_Pair (''a00000'', ''b00000''),
         Derive_NPIV_Map [2, 1] [''P3''] [''a00000'', ''b00000''] [(''P3'', ''a00000 b00000'')],
         Get_Mgmt_Partition ''mgmt'',
         Add_NPIV_Port_Mappings ''mgmt'' (Some [(''P3'', ''a00000 b00000'')])]\<rparr>)"
  apply (simp add: wwpns_def rebuild_fabric_def build_wwpns_for_fabric_def build_wwpns_loop_eq
      add_npiv_mgmt_mappings_eq Let_def)
  apply (simp add: example_env_def fresh_instance_def fabric_ports_def pair_list_def
      set_fabric_meta_def set_fabric_state_def log_call_def encode_port_map_def meta_elems_def
      stored_state_alt is_space_def Let_def)
  done

lemma parked_metadata:
  "system_metadata parked_instance =
     [sys_meta_fabric_key ''A'' \<mapsto> ''P1,a0,b0'', sys_fabric_state_key ''A'' \<mapsto> FS_MGMT_MAPPED,
      sys_meta_fabric_key ''B'' \<mapsto> ''P3,a00000,b00000'',
      sys_fabric_state_key ''B'' \<mapsto> FS_MGMT_MAPPED]"
  by (simp add: parked_instance_def wwpns_example)

lemma half_provisioned_simps [simp]:
  "get_fabric_meta half_provisioned ''A'' = Some [(''P1'', ''old1 old2'')]"
  "get_fabric_meta half_provisioned ''B'' = None"
  "stored_state half_provisioned ''A'' = FS_MGMT_MAPPED"
  "stored_state half_provisioned ''B'' = FS_UNMAPPED"
  by (simp_all add: half_provisioned_def get_fabric_meta_def stored_state_alt
      decode_port_map_def Let_def)

lemma wwpns_half_provisioned:
  "wwpns example_env half_provisioned =
    ([''a0'', ''b0'', ''a000'', ''b000''],
     \<lparr>task_state = None,
      system_metadata =
        [sys_meta_fabric_key ''A'' \<mapsto> ''P1,a0,b0'', sys_fabric_state_key ''A'' \<mapsto> FS_MGMT_MAPPED,
         sys_meta_fabric_key ''B'' \<mapsto> ''P3,a000,b000'',
         sys_fabric_state_key ''B'' \<mapsto> FS_MGMT_MAPPED],
      calls =
        [VIOS_Read [1, 2],
         Build_WWPN_Pair (''a0'', ''b0''),
         Derive_NPIV_Map [1, 2] [''P1'', ''P2''] [''a0'', ''b0''] [(''P1'', ''a0 b0'')],
         Build_WWPN_Pair (''a000'', ''b000''),
         Derive_NPIV_Map [2, 1] [''P3''] [''a000'', ''b000''] [(''P3'', ''a000 b000'')],
         Get_Mgmt_Partition ''mgmt'',
         Add_NPIV_Port_Mappings ''mgmt'' (Some [(''P3'', ''a000 b000'')])]\<rparr>)"
  apply (simp add: wwpns_def rebuild_fabric_def build_wwpns_for_fabric_def build_wwpns_loop_eq
      add_npiv_mgmt_mappings_eq Let_def)
  apply (simp add: example_env_def half_provisioned_def fabric_ports_def pair_list_def
      set_fabric_meta_def set_fabric_state_def log_call_def encode_port_map_def meta_elems_def
      stored_state_alt is_space_def Let_def)
  done

subsection \<open>The invariant and disconnect_volume\<close>

lemma check_fabrics_good:
  "\<not> fst (check_fabrics w fs acc) \<Longrightarrow> \<forall>f\<in>set fs. get_fabric_meta w f \<noteq> None"
  by (induction fs arbitrary: acc) (auto split: option.splits)

lemma wwpns_cases:
  obtains (fast) "snd (wwpns env w) = w"
  | (rebuild) vios vios' resp' w' where
      "rebuild_loop env (fabric_names env) (vios, [], log_call (VIOS_Read vios) w)
         = (vios', resp', w')"
      "snd (wwpns env w) = w'"
proof (cases "fst (check_fabrics w (fabric_names env) [])")
  case True
  obtain vios' resp' w' where r:
    "rebuild_loop env (fabric_names env)
       (vios_read env (calls w), [], log_call (VIOS_Read (vios_read env (calls w))) w)
     = (vios', resp', w')"
    by (cases "rebuild_loop env (fabric_names env)
       (vios_read env (calls w), [], log_call (VIOS_Read (vios_read env (calls w))) w)") auto
  with True have "snd (wwpns env w) = w'"
    by (cases "check_fabrics w (fabric_names env) []") (simp add: wwpns_def Let_def)
  with r show ?thesis by (rule rebuild)
next
  case False
  then have "snd (wwpns env w) = w"
    by (cases "check_fabrics w (fabric_names env) []") (simp add: wwpns_def)
  then show ?thesis by (rule fast)
qed

lemma rebuild_loop_get_fabric_meta:
  assumes "rebuild_loop env fs (vios, resp, w) = (vios', resp', w')" "g \<notin> set fs"
  shows "get_fabric_meta w' g = get_fabric_meta w g"
proof -
  from assms have "system_metadata w' (sys_meta_fabric_key g)
      = system_metadata w (sys_meta_fabric_key g)"
    by (intro rebuild_loop_frame [OF assms(1)]) auto
  then show ?thesis by (simp add: get_fabric_meta_def)
qed

lemma wwpns_invariant:
  assumes "fabric_invariant w f"
  shows "fabric_invariant (snd (wwpns env w)) f"
proof (cases rule: wwpns_cases [of env w])
  case fast
  with assms show ?thesis by simp
next
  case (rebuild vios vios' resp' w')
  note st = rebuild_loop_states [OF rebuild(1), of f]
  show ?thesis
  proof (cases "f \<in> set (fabric_names env)")
    case True
    from rebuild_loop_meta_present [OF rebuild(1) True]
    have "get_fabric_meta w' f \<noteq> None"
      by (simp add: get_fabric_meta_def split: option.splits)
    with assms True st rebuild(2) show ?thesis
      by (auto simp: fabric_invariant_def)
  next
    case False
    from rebuild_loop_get_fabric_meta [OF rebuild(1) False]
    have "get_fabric_meta w' f = get_fabric_meta w f" by simp
    with assms False st rebuild(2) show ?thesis
      by (auto simp: fabric_invariant_def)
  qed
qed

lemma connect_volume_invariant:
  assumes "fabric_invariant w f" "f \<in> set (fabric_names env) \<longrightarrow> get_fabric_meta w f \<noteq> None"
  shows "fabric_invariant (connect_volume env vm w) f"
  using assms
  by (auto simp: fabric_invariant_def connect_volume_def connect_loop_stored_state)

lemma gather_mappings_append:
  "gather_mappings w fs acc =
     (if \<forall>f\<in>set fs. get_fabric_meta w f \<noteq> None
      then Inr (acc @ concat (map (\<lambda>f. the (get_fabric_meta w f)) fs))
      else Inl TypeError)"
  by (induction fs arbitrary: acc) (auto split: option.splits)

lemma disconnect_volume_metadata:
  "disconnect_volume env w = Inr w' \<Longrightarrow>
     system_metadata w' = system_metadata w \<and> task_state w' = task_state w"
  by (auto simp: disconnect_volume_def split: if_splits sum.splits)

lemma disconnect_volume_invariant:
  assumes "fabric_invariant w f" "disconnect_volume env w = Inr w'"
  shows "fabric_invariant w' f"
  using assms disconnect_volume_metadata [OF assms(2)]
  by (simp add: fabric_invariant_def stored_state_alt get_fabric_meta_def)

lemma get_fabric_state_invariant:
  "fabric_invariant (snd (get_fabric_state w g)) f = fabric_invariant w f"
  by (simp add: get_fabric_state_eq fabric_invariant_def)

lemma disconnect_volume_eq:
  "disconnect_volume env w =
     (if \<not> in_disconnect_states (task_state w) then Inr w
      else if \<forall>f\<in>set (fabric_names env). get_fabric_meta w f \<noteq> None
      then Inr (log_call (Remove_NPIV_Port_Mappings
              (Some (concat (map (\<lambda>f. the (get_fabric_meta w f)) (fabric_names env))))) w)
      else Inl TypeError)"
  by (auto simp: disconnect_volume_def gather_mappings_append)

lemma connect_volume_stored_state:
  "stored_state (connect_volume env vm w) f =
     (if f \<in> set (fabric_names env) then FS_INST_MAPPED else stored_state w f)"
  by (simp add: connect_volume_def connect_loop_stored_state)

lemma connect_volume_get_fabric_meta:
  "get_fabric_meta (connect_volume env vm w) f = get_fabric_meta w f"
  by (simp add: connect_volume_def)

lemma parked_simps:
  "get_fabric_meta parked_instance ''A'' = Some [(''P1'', ''a0 b0'')]"
  "get_fabric_meta parked_instance ''B'' = Some [(''P3'', ''a00000 b00000'')]"
  "stored_state parked_instance ''A'' = FS_MGMT_MAPPED"
  "stored_state parked_instance ''B'' = FS_MGMT_MAPPED"
  by (simp_all add: get_fabric_meta_def stored_state_alt parked_metadata decode_port_map_def
      Let_def)

section \<open>The claims\<close>

text \<open>
  C3. Round trip of the stored encoding: for every port map whose elements pair a
  physical WWPN without a comma with a string of exactly two virtual WWPNs separated by
  one blank, \<^verbatim>\<open>_get_fabric_meta\<close> after \<^verbatim>\<open>_set_fabric_meta\<close> on the same fabric
  returns the same ordered sequence of pairs.
\<close>

theorem fabric_meta_round_trip:
  assumes "\<forall>m\<in>set x. wf_mapping m"
  shows "get_fabric_meta (set_fabric_meta w fabric x) fabric = Some x"
  using assms by (simp add: decode_encode)

theorem fabric_meta_round_trip_witness:
  "wf_mapping (''21000024FF649104'', ''c05076079cff0e56 c05076079cff0e57'')
   \<and> wf_mapping (''21000024FF649107'', ''c05076079cff0e58 c05076079cff0e59'')
   \<and> get_fabric_meta
       (set_fabric_meta fresh_instance ''A''
          [(''21000024FF649104'', ''c05076079cff0e56 c05076079cff0e57''),
           (''21000024FF649107'', ''c05076079cff0e58 c05076079cff0e59'')]) ''A''
     = Some [(''21000024FF649104'', ''c05076079cff0e56 c05076079cff0e57''),
             (''21000024FF649107'', ''c05076079cff0e58 c05076079cff0e59'')]"
proof -
  have m1: "wf_mapping (''21000024FF649104'', ''c05076079cff0e56 c05076079cff0e57'')"
    by (simp add: wf_mapping_def two_wwpns_def wwpn_def is_space_def Let_def)
  have m2: "wf_mapping (''21000024FF649107'', ''c05076079cff0e58 c05076079cff0e59'')"
    by (simp add: wf_mapping_def two_wwpns_def wwpn_def is_space_def Let_def)
  have "\<forall>m\<in>set [(''21000024FF649104'', ''c05076079cff0e56 c05076079cff0e57''),
                  (''21000024FF649107'', ''c05076079cff0e58 c05076079cff0e59'')]. wf_mapping m"
    using m1 m2 by simp
  from fabric_meta_round_trip [OF this, of fresh_instance "''A''"] m1 m2
  show ?thesis by (intro conjI)
qed

text \<open>
  C8, as amended. Decoding never signals an error. A stored string with \<open>n\<close>
  comma-separated tokens decodes to its first \<open>n div 3\<close> complete triples, in order;
  when \<open>n\<close> is not a multiple of 3 the one or two tokens left over are dropped silently.
  \<^verbatim>\<open>_get_fabric_meta\<close> has no \<^verbatim>\<open>raise\<close>, and \<^verbatim>\<open>zip\<close> stops at the shortest
  slice.
\<close>

theorem get_fabric_meta_truncates:
  assumes "system_metadata w (sys_meta_fabric_key fabric) = Some s"
  shows "get_fabric_meta w fabric = Some (triples (split_sep CHR '','' s))
         \<and> length (triples (split_sep CHR '','' s)) = length (split_sep CHR '','' s) div 3"
  using assms by (simp add: get_fabric_meta_def decode_port_map_triples length_triples)

theorem get_fabric_meta_truncates_witness:
  "system_metadata
     (fresh_instance\<lparr>system_metadata := [sys_meta_fabric_key ''B'' \<mapsto> ''p1,a,b,p2,c'']\<rparr>)
     (sys_meta_fabric_key ''B'') = Some ''p1,a,b,p2,c''
   \<and> get_fabric_meta
       (fresh_instance\<lparr>system_metadata := [sys_meta_fabric_key ''B'' \<mapsto> ''p1,a,b,p2,c'']\<rparr>)
       ''B'' = Some [(''p1'', ''a b'')]"
proof -
  have stored: "system_metadata
     (fresh_instance\<lparr>system_metadata := [sys_meta_fabric_key ''B'' \<mapsto> ''p1,a,b,p2,c'']\<rparr>)
     (sys_meta_fabric_key ''B'') = Some ''p1,a,b,p2,c''"
    by simp
  have "triples (split_sep CHR '','' ''p1,a,b,p2,c'') = [(''p1'', ''a b'')]"
    by (simp add: Let_def)
  with get_fabric_meta_truncates [OF stored] have
    "get_fabric_meta
       (fresh_instance\<lparr>system_metadata := [sys_meta_fabric_key ''B'' \<mapsto> ''p1,a,b,p2,c'']\<rparr>)
       ''B'' = Some [(''p1'', ''a b'')]"
    by simp
  with stored show ?thesis by (intro conjI)
qed

text \<open>
  The claim C8 as the spec states it fails: the stored string \<^verbatim>\<open>p1,a,b,p2\<close> has four
  tokens, and decoding returns the one complete triple.
\<close>

theorem get_fabric_meta_no_decode_error:
  "length (split_sep CHR '','' ''p1,a,b,p2'') mod 3 = 1
   \<and> get_fabric_meta
       (fresh_instance\<lparr>system_metadata := [sys_meta_fabric_key ''A'' \<mapsto> ''p1,a,b,p2'']\<rparr>) ''A''
     = Some [(''p1'', ''a b'')]"
  by (simp add: get_fabric_meta_def decode_port_map_def Let_def)

text \<open>
  C6. Parking on the management partition is guarded by the fabric state and idempotent:
  \<^verbatim>\<open>_add_npiv_mgmt_mappings\<close> asks for the management partition, issues the add call
  and stores \<open>FS_MGMT_MAPPED\<close> exactly when the fabric's state key is absent from the
  metadata (which reads as \<open>FS_UNMAPPED\<close>) or holds \<open>FS_UNMAPPED\<close>; in every other state
  it makes no call and changes nothing, so a second call after a first changes nothing.
\<close>

theorem add_npiv_mgmt_mappings_guarded:
  "add_npiv_mgmt_mappings env fabric w pm =
     (if system_metadata w (sys_fabric_state_key fabric) = None
         \<or> system_metadata w (sys_fabric_state_key fabric) = Some FS_UNMAPPED
      then set_fabric_state
             (log_call (Add_NPIV_Port_Mappings (get_mgmt_partition env (calls w)) (Some pm))
               (log_call (Get_Mgmt_Partition (get_mgmt_partition env (calls w))) w))
             fabric FS_MGMT_MAPPED
      else w)
   \<and> add_npiv_mgmt_mappings env fabric (add_npiv_mgmt_mappings env fabric w pm) pm'
       = add_npiv_mgmt_mappings env fabric w pm"
proof -
  have stay: "set_fabric_state w fabric (stored_state w fabric) = w"
    if "stored_state w fabric \<noteq> FS_UNMAPPED" for w :: "'a world"
    using that
    by (auto simp: stored_state_alt fun_upd_idem_iff intro!: world_eqI split: option.splits)
  have guard: "(stored_state w fabric = FS_UNMAPPED)
      = (system_metadata w (sys_fabric_state_key fabric) = None
         \<or> system_metadata w (sys_fabric_state_key fabric) = Some FS_UNMAPPED)"
    by (simp add: stored_state_alt split: option.splits)
  have "add_npiv_mgmt_mappings env fabric w pm =
     (if stored_state w fabric = FS_UNMAPPED
      then set_fabric_state
             (log_call (Add_NPIV_Port_Mappings (get_mgmt_partition env (calls w)) (Some pm))
               (log_call (Get_Mgmt_Partition (get_mgmt_partition env (calls w))) w))
             fabric FS_MGMT_MAPPED
      else w)
   \<and> add_npiv_mgmt_mappings env fabric (add_npiv_mgmt_mappings env fabric w pm) pm'
       = add_npiv_mgmt_mappings env fabric w pm"
    by (auto simp: add_npiv_mgmt_mappings_eq stay)
  then show ?thesis unfolding guard .
qed

text \<open>
  A fresh instance has no state key for fabric A and is parked, a second call changes
  nothing, and the instance that \<open>connect_volume\<close> left in \<open>FS_INST_MAPPED\<close> is not
  touched.
\<close>

theorem add_npiv_mgmt_mappings_guarded_witness:
  "system_metadata fresh_instance (sys_fabric_state_key ''A'') = None
   \<and> add_npiv_mgmt_mappings example_env ''A'' fresh_instance [(''P1'', ''a0 b0'')]
       = \<lparr>task_state = None,
          system_metadata = [sys_fabric_state_key ''A'' \<mapsto> FS_MGMT_MAPPED],
          calls = [Get_Mgmt_Partition ''mgmt'',
                   Add_NPIV_Port_Mappings ''mgmt'' (Some [(''P1'', ''a0 b0'')])]\<rparr>
   \<and> add_npiv_mgmt_mappings example_env ''A''
         (add_npiv_mgmt_mappings example_env ''A'' fresh_instance [(''P1'', ''a0 b0'')])
         [(''P1'', ''a0 b0'')]
       = add_npiv_mgmt_mappings example_env ''A'' fresh_instance [(''P1'', ''a0 b0'')]
   \<and> system_metadata attached_instance (sys_fabric_state_key ''A'') = Some FS_INST_MAPPED
   \<and> add_npiv_mgmt_mappings example_env ''A'' attached_instance [(''P1'', ''a0 b0'')]
       = attached_instance"
proof -
  have h: "system_metadata fresh_instance (sys_fabric_state_key ''A'') = None"
    by (simp add: fresh_instance_def)
  note t = add_npiv_mgmt_mappings_guarded
    [of example_env "''A''" fresh_instance "[(''P1'', ''a0 b0'')]" "[(''P1'', ''a0 b0'')]"]
  from t h have 1: "add_npiv_mgmt_mappings example_env ''A'' fresh_instance [(''P1'', ''a0 b0'')]
       = \<lparr>task_state = None,
          system_metadata = [sys_fabric_state_key ''A'' \<mapsto> FS_MGMT_MAPPED],
          calls = [Get_Mgmt_Partition ''mgmt'',
                   Add_NPIV_Port_Mappings ''mgmt'' (Some [(''P1'', ''a0 b0'')])]\<rparr>"
    by (simp add: fresh_instance_def example_env_def set_fabric_state_def log_call_def)
  from t have 2: "add_npiv_mgmt_mappings example_env ''A''
         (add_npiv_mgmt_mappings example_env ''A'' fresh_instance [(''P1'', ''a0 b0'')])
         [(''P1'', ''a0 b0'')]
       = add_npiv_mgmt_mappings example_env ''A'' fresh_instance [(''P1'', ''a0 b0'')]"
    by (rule conjunct2)
  have a: "system_metadata attached_instance (sys_fabric_state_key ''A'') = Some FS_INST_MAPPED"
    unfolding attached_instance_def connect_volume_def
    by (subst connect_loop_metadata) simp
  note u = add_npiv_mgmt_mappings_guarded
    [of example_env "''A''" attached_instance "[(''P1'', ''a0 b0'')]" "[(''P1'', ''a0 b0'')]"]
  from u a have 3: "add_npiv_mgmt_mappings example_env ''A'' attached_instance
      [(''P1'', ''a0 b0'')] = attached_instance"
    by simp
  from h 1 2 a 3 show ?thesis by (intro conjI)
qed

text \<open>
  C1. When at least one configured fabric has no stored port map, \<open>wwpns\<close> rebuilds every
  configured fabric. The log of the call grows by \<open>ext\<close>, which holds one build request per
  port and fabric, and the WWPNs returned are those the build requests produced. For every
  configured fabric, also one that had a stored port map, \<open>ext\<close> contains the fabric's
  build requests followed by the derive request on exactly the WWPNs they returned and on
  the fabric's physical ports, and the fabric's stored port map afterwards is the encoding
  of what that derive request returned: the old map is overwritten, not reused.
\<close>

theorem wwpns_rebuilds_every_fabric:
  assumes "f0 \<in> set (fabric_names env)" "get_fabric_meta w f0 = None"
  shows "\<exists>ext. calls (snd (wwpns env w)) = calls w @ ext
           \<and> length (built_pairs ext) = length (fabric_names env) * nat (ports_per_fabric env)
           \<and> fst (wwpns env w) = concat (map pair_list (built_pairs ext))
           \<and> (\<forall>f\<in>set (fabric_names env). \<exists>v pairs pm pre post.
                 length pairs = nat (ports_per_fabric env)
                 \<and> ext = pre @ map Build_WWPN_Pair pairs
                     @ [Derive_NPIV_Map v (fabric_ports env f) (concat (map pair_list pairs)) pm]
                     @ post
                 \<and> system_metadata (snd (wwpns env w)) (sys_meta_fabric_key f)
                     = Some (encode_port_map pm))"
proof -
  let ?v = "vios_read env (calls w)"
  let ?fs = "fabric_names env"
  let ?w0 = "log_call (VIOS_Read ?v) w"
  from rebuild_loop_log [of env ?fs ?v "[]" ?w0]
  obtain vios' ext w' where r:
    "rebuild_loop env ?fs (?v, [], ?w0)
       = (vios', [] @ concat (map pair_list (built_pairs ext)), w')"
    "calls w' = calls ?w0 @ ext"
    "length (built_pairs ext) = length ?fs * nat (ports_per_fabric env)"
    by blast
  have res: "wwpns env w = (concat (map pair_list (built_pairs ext)), w')"
    using r by (simp add: wwpns_rebuild [OF assms] Let_def)
  have ep: "\<exists>v pairs pm pre post.
                 length pairs = nat (ports_per_fabric env)
                 \<and> VIOS_Read ?v # ext = pre @ map Build_WWPN_Pair pairs
                     @ [Derive_NPIV_Map v (fabric_ports env f) (concat (map pair_list pairs)) pm]
                     @ post
                 \<and> system_metadata w' (sys_meta_fabric_key f) = Some (encode_port_map pm)"
    if "f \<in> set ?fs" for f
  proof -
    from rebuild_loop_episode [OF r(1) that] obtain v pairs pm pre post where e:
      "length pairs = nat (ports_per_fabric env)"
      "calls w' = calls ?w0 @ pre @ map Build_WWPN_Pair pairs
               @ [Derive_NPIV_Map v (fabric_ports env f) (concat (map pair_list pairs)) pm] @ post"
      "system_metadata w' (sys_meta_fabric_key f) = Some (encode_port_map pm)"
      by blast
    from e(2) r(2) have "ext = pre @ map Build_WWPN_Pair pairs
               @ [Derive_NPIV_Map v (fabric_ports env f) (concat (map pair_list pairs)) pm] @ post"
      by simp
    then have "VIOS_Read ?v # ext = (VIOS_Read ?v # pre) @ map Build_WWPN_Pair pairs
               @ [Derive_NPIV_Map v (fabric_ports env f) (concat (map pair_list pairs)) pm] @ post"
      by simp
    with e show ?thesis by blast
  qed
  have "calls (snd (wwpns env w)) = calls w @ (VIOS_Read ?v # ext)"
    using r res by simp
  moreover have "length (built_pairs (VIOS_Read ?v # ext))
      = length ?fs * nat (ports_per_fabric env)"
    using r by simp
  moreover have "fst (wwpns env w) = concat (map pair_list (built_pairs (VIOS_Read ?v # ext)))"
    using res by simp
  moreover have "\<forall>f\<in>set ?fs. \<exists>v pairs pm pre post.
                 length pairs = nat (ports_per_fabric env)
                 \<and> VIOS_Read ?v # ext = pre @ map Build_WWPN_Pair pairs
                     @ [Derive_NPIV_Map v (fabric_ports env f) (concat (map pair_list pairs)) pm]
                     @ post
                 \<and> system_metadata (snd (wwpns env w)) (sys_meta_fabric_key f)
                     = Some (encode_port_map pm)"
    using ep res by simp
  ultimately show ?thesis by blast
qed

text \<open>
  In the example fabric A has the stored map \<^verbatim>\<open>P1,old1,old2\<close> and fabric B has none:
  both are rebuilt, and A's stored map is replaced.
\<close>

theorem wwpns_rebuilds_every_fabric_witness:
  "''B'' \<in> set (fabric_names example_env)
   \<and> get_fabric_meta half_provisioned ''B'' = None
   \<and> get_fabric_meta half_provisioned ''A'' = Some [(''P1'', ''old1 old2'')]
   \<and> (\<exists>ext. calls (snd (wwpns example_env half_provisioned)) = calls half_provisioned @ ext
         \<and> length (built_pairs ext)
             = length (fabric_names example_env) * nat (ports_per_fabric example_env)
         \<and> fst (wwpns example_env half_provisioned) = concat (map pair_list (built_pairs ext))
         \<and> (\<forall>f\<in>set (fabric_names example_env). \<exists>v pairs pm pre post.
               length pairs = nat (ports_per_fabric example_env)
               \<and> ext = pre @ map Build_WWPN_Pair pairs
                   @ [Derive_NPIV_Map v (fabric_ports example_env f)
                        (concat (map pair_list pairs)) pm]
                   @ post
               \<and> system_metadata (snd (wwpns example_env half_provisioned))
                   (sys_meta_fabric_key f) = Some (encode_port_map pm)))
   \<and> get_fabric_meta (snd (wwpns example_env half_provisioned)) ''A'' = Some [(''P1'', ''a0 b0'')]
   \<and> fst (wwpns example_env half_provisioned) = [''a0'', ''b0'', ''a000'', ''b000'']"
proof -
  have h1: "''B'' \<in> set (fabric_names example_env)" by simp
  have h2: "get_fabric_meta half_provisioned ''B'' = None" by simp
  have h3: "get_fabric_meta half_provisioned ''A'' = Some [(''P1'', ''old1 old2'')]" by simp
  note t = wwpns_rebuilds_every_fabric [OF h1 h2]
  have e1: "get_fabric_meta (snd (wwpns example_env half_provisioned)) ''A''
      = Some [(''P1'', ''a0 b0'')]"
    by (simp add: wwpns_half_provisioned get_fabric_meta_def decode_port_map_def Let_def)
  have e2: "fst (wwpns example_env half_provisioned) = [''a0'', ''b0'', ''a000'', ''b000'']"
    by (simp add: wwpns_half_provisioned)
  from h1 h2 h3 t e1 e2 show ?thesis by (intro conjI)
qed

text \<open>
  C2. When every configured fabric has a stored port map, \<open>wwpns\<close> returns the instance as
  it was, so it makes no call to pypowervm and writes no metadata, and a second call
  returns what the first returned. The list returned is, fabric after fabric and pair
  after pair, \<^verbatim>\<open>meta_val[1].split(' ')\<close> of the decoded pairs; when no stored token
  contains a blank, as for WWPNs, that is the two virtual WWPNs of every stored triple.
  \<open>vals\<close> are the stored strings in the order of the fabrics.
\<close>

theorem wwpns_fast_path:
  assumes "map (\<lambda>f. system_metadata w (sys_meta_fabric_key f)) (fabric_names env) = map Some vals"
  shows "wwpns env w =
           (concat (map (\<lambda>s. concat (map (\<lambda>m. split_sep CHR '' '' (snd m))
                                        (decode_port_map s))) vals), w)
         \<and> ((\<forall>s\<in>set vals. \<forall>t\<in>set (split_sep CHR '','' s). CHR '' '' \<notin> set t) \<longrightarrow>
              fst (wwpns env w) = concat (map (\<lambda>s. virtual_wwpns (split_sep CHR '','' s)) vals))
         \<and> wwpns env (snd (wwpns env w)) = wwpns env w"
proof -
  have 1: "wwpns env w =
           (concat (map (\<lambda>s. concat (map (\<lambda>m. split_sep CHR '' '' (snd m))
                                        (decode_port_map s))) vals), w)"
    using check_fabrics_present [OF assms, of "[]"] by (simp add: wwpns_def)
  have 2: "fst (wwpns env w) = concat (map (\<lambda>s. virtual_wwpns (split_sep CHR '','' s)) vals)"
    if "\<forall>s\<in>set vals. \<forall>t\<in>set (split_sep CHR '','' s). CHR '' '' \<notin> set t"
  proof -
    from that have "map (\<lambda>s. concat (map (\<lambda>m. split_sep CHR '' '' (snd m)) (decode_port_map s))) vals
       = map (\<lambda>s. virtual_wwpns (split_sep CHR '','' s)) vals"
      by (intro map_cong refl) (simp add: decode_port_map_triples split_blank_triples)
    with 1 show ?thesis by simp
  qed
  from 1 2 show ?thesis by simp
qed

theorem wwpns_fast_path_witness:
  "map (\<lambda>f. system_metadata parked_instance (sys_meta_fabric_key f)) (fabric_names example_env)
     = map Some [''P1,a0,b0'', ''P3,a00000,b00000'']
   \<and> wwpns example_env parked_instance = ([''a0'', ''b0'', ''a00000'', ''b00000''], parked_instance)
   \<and> wwpns example_env (snd (wwpns example_env parked_instance))
       = wwpns example_env parked_instance"
proof -
  have h: "map (\<lambda>f. system_metadata parked_instance (sys_meta_fabric_key f))
             (fabric_names example_env) = map Some [''P1,a0,b0'', ''P3,a00000,b00000'']"
    by (simp add: parked_metadata)
  note t = wwpns_fast_path [OF h]
  have blank: "\<forall>s\<in>set [''P1,a0,b0'', ''P3,a00000,b00000''].
                 \<forall>t\<in>set (split_sep CHR '','' s). CHR '' '' \<notin> set t"
    by (simp add: Let_def)
  from t have a: "wwpns example_env parked_instance =
      (concat (map (\<lambda>s. concat (map (\<lambda>m. split_sep CHR '' '' (snd m)) (decode_port_map s)))
         [''P1,a0,b0'', ''P3,a00000,b00000'']), parked_instance)"
    by (rule conjunct1)
  from t blank have b: "fst (wwpns example_env parked_instance)
      = concat (map (\<lambda>s. virtual_wwpns (split_sep CHR '','' s))
          [''P1,a0,b0'', ''P3,a00000,b00000''])"
    by blast
  from t have c: "wwpns example_env (snd (wwpns example_env parked_instance))
       = wwpns example_env parked_instance"
    by blast
  from b have "fst (wwpns example_env parked_instance) = [''a0'', ''b0'', ''a00000'', ''b00000'']"
    by (simp add: Let_def)
  moreover from a have "snd (wwpns example_env parked_instance) = parked_instance"
    by simp
  ultimately have "wwpns example_env parked_instance
      = ([''a0'', ''b0'', ''a00000'', ''b00000''], parked_instance)"
    by (simp add: prod_eq_iff)
  with h c show ?thesis by (intro conjI)
qed

text \<open>
  C7. On the rebuild path the list of VIOS wrappers is reversed after every fabric: the
  derive request of the fabric at position \<open>k\<close> (counted from 0, so the first, third, ...
  fabric has an even \<open>k\<close>) is given the list as read when \<open>k\<close> is even and the reversed
  list when \<open>k\<close> is odd, together with that fabric's physical ports.
\<close>

theorem wwpns_alternates_vios_order:
  assumes "f \<in> set (fabric_names env)" "get_fabric_meta w f = None"
  shows "\<exists>ext. calls (snd (wwpns env w)) = calls w @ ext
           \<and> length (derive_args ext) = length (fabric_names env)
           \<and> (\<forall>k<length (fabric_names env).
                 derive_args ext ! k =
                   (if even k then vios_read env (calls w) else rev (vios_read env (calls w)),
                    fabric_ports env (fabric_names env ! k)))"
proof -
  let ?v = "vios_read env (calls w)"
  let ?fs = "fabric_names env"
  from rebuild_loop_log [of env ?fs ?v "[]" "log_call (VIOS_Read ?v) w"]
  obtain vios' ext w' where r:
    "rebuild_loop env ?fs (?v, [], log_call (VIOS_Read ?v) w)
       = (vios', [] @ concat (map pair_list (built_pairs ext)), w')"
    "calls w' = calls (log_call (VIOS_Read ?v) w) @ ext"
    "derive_args ext = zip (alternate ?v (length ?fs)) (map (fabric_ports env) ?fs)"
    by blast
  have "calls (snd (wwpns env w)) = calls w @ (VIOS_Read ?v # ext)"
    using r by (simp add: wwpns_rebuild [OF assms] Let_def)
  moreover have "derive_args (VIOS_Read ?v # ext)
      = zip (alternate ?v (length ?fs)) (map (fabric_ports env) ?fs)"
    using r by simp
  then have "length (derive_args (VIOS_Read ?v # ext)) = length ?fs
     \<and> (\<forall>k<length ?fs. derive_args (VIOS_Read ?v # ext) ! k
           = (if even k then ?v else rev ?v, fabric_ports env (?fs ! k)))"
    by (simp add: alternate_nth)
  ultimately show ?thesis by blast
qed

text \<open>
  The example has two fabrics with one port each and the VIOS wrappers 1 and 2: fabric A
  is derived against \<open>[1, 2]\<close> and fabric B against \<open>[2, 1]\<close>.
\<close>

theorem wwpns_alternates_vios_order_witness:
  "''A'' \<in> set (fabric_names example_env)
   \<and> get_fabric_meta fresh_instance ''A'' = None
   \<and> (\<exists>ext. calls (snd (wwpns example_env fresh_instance)) = calls fresh_instance @ ext
         \<and> length (derive_args ext) = length (fabric_names example_env)
         \<and> (\<forall>k<length (fabric_names example_env).
               derive_args ext ! k =
                 (if even k then vios_read example_env (calls fresh_instance)
                  else rev (vios_read example_env (calls fresh_instance)),
                  fabric_ports example_env (fabric_names example_env ! k))))
   \<and> derive_args (calls (snd (wwpns example_env fresh_instance)))
       = [([1, 2], [''P1'', ''P2'']), ([2, 1], [''P3''])]"
proof -
  have h1: "''A'' \<in> set (fabric_names example_env)" by simp
  have h2: "get_fabric_meta fresh_instance ''A'' = None" by simp
  note t = wwpns_alternates_vios_order [OF h1 h2]
  have e: "derive_args (calls (snd (wwpns example_env fresh_instance)))
       = [([1, 2], [''P1'', ''P2'']), ([2, 1], [''P3''])]"
    by (simp add: wwpns_example)
  from h1 h2 t e show ?thesis by (intro conjI)
qed



text \<open>
  C10. \<open>connect_volume\<close> stores \<open>FS_INST_MAPPED\<close> for every configured fabric, whatever
  the state was. For a fabric whose state reads \<open>FS_UNMAPPED\<close> the state stays
  \<open>FS_UNMAPPED\<close> through \<^verbatim>\<open>_remove_npiv_mgmt_mappings\<close>, which issues no call, and the
  body then passes on whatever \<^verbatim>\<open>_get_fabric_meta\<close> returned, \<^verbatim>\<open>None\<close> included, to
  the add call and stores \<open>FS_INST_MAPPED\<close>: no \<open>FS_MGMT_MAPPED\<close> in between and no check
  for a stored port map.
\<close>

theorem connect_volume_sets_inst_mapped:
  "(\<forall>f\<in>set (fabric_names env).
      system_metadata (connect_volume env vm_uuid w) (sys_fabric_state_key f) = Some FS_INST_MAPPED)
   \<and> (stored_state w fabric = FS_UNMAPPED \<longrightarrow>
        stored_state (remove_npiv_mgmt_mappings fabric w (get_fabric_meta w fabric)) fabric
          = FS_UNMAPPED
        \<and> calls (remove_npiv_mgmt_mappings fabric w (get_fabric_meta w fabric)) = calls w
        \<and> connect_fabric vm_uuid fabric w
          = set_fabric_state
              (log_call (Add_NPIV_Port_Mappings vm_uuid (get_fabric_meta w fabric)) w)
              fabric FS_INST_MAPPED)"
  by (auto simp: connect_volume_def connect_loop_metadata connect_fabric_eq
        remove_npiv_mgmt_mappings_eq intro!: world_eqI)

text \<open>A fresh instance, for which \<open>wwpns\<close> never ran, connected.\<close>

theorem connect_volume_sets_inst_mapped_witness:
  "stored_state fresh_instance ''A'' = FS_UNMAPPED
   \<and> get_fabric_meta fresh_instance ''A'' = None
   \<and> system_metadata (connect_volume example_env ''vm'' fresh_instance)
       (sys_fabric_state_key ''A'') = Some FS_INST_MAPPED
   \<and> system_metadata (connect_volume example_env ''vm'' fresh_instance)
       (sys_fabric_state_key ''B'') = Some FS_INST_MAPPED
   \<and> stored_state (remove_npiv_mgmt_mappings ''A'' fresh_instance None) ''A'' = FS_UNMAPPED
   \<and> connect_fabric ''vm'' ''A'' fresh_instance
       = set_fabric_state (log_call (Add_NPIV_Port_Mappings ''vm'' None) fresh_instance)
           ''A'' FS_INST_MAPPED"
proof -
  have h: "stored_state fresh_instance ''A'' = FS_UNMAPPED" by simp
  have m: "get_fabric_meta fresh_instance ''A'' = None" by simp
  note t = connect_volume_sets_inst_mapped [of example_env "''vm''" fresh_instance "''A''"]
  from t have all: "\<forall>f\<in>set (fabric_names example_env).
      system_metadata (connect_volume example_env ''vm'' fresh_instance)
        (sys_fabric_state_key f) = Some FS_INST_MAPPED"
    by (rule conjunct1)
  from all have a: "system_metadata (connect_volume example_env ''vm'' fresh_instance)
       (sys_fabric_state_key ''A'') = Some FS_INST_MAPPED"
    by (rule bspec) simp
  from all have b: "system_metadata (connect_volume example_env ''vm'' fresh_instance)
       (sys_fabric_state_key ''B'') = Some FS_INST_MAPPED"
    by (rule bspec) simp
  from t h have rest: "stored_state (remove_npiv_mgmt_mappings ''A'' fresh_instance
          (get_fabric_meta fresh_instance ''A'')) ''A'' = FS_UNMAPPED
        \<and> calls (remove_npiv_mgmt_mappings ''A'' fresh_instance
          (get_fabric_meta fresh_instance ''A'')) = calls fresh_instance
        \<and> connect_fabric ''vm'' ''A'' fresh_instance
          = set_fabric_state
              (log_call (Add_NPIV_Port_Mappings ''vm'' (get_fabric_meta fresh_instance ''A''))
                 fresh_instance) ''A'' FS_INST_MAPPED"
    by blast
  from rest have c: "stored_state (remove_npiv_mgmt_mappings ''A'' fresh_instance None) ''A''
      = FS_UNMAPPED"
    unfolding m by (rule conjunct1)
  from rest have d: "connect_fabric ''vm'' ''A'' fresh_instance
       = set_fabric_state (log_call (Add_NPIV_Port_Mappings ''vm'' None) fresh_instance)
           ''A'' FS_INST_MAPPED"
    unfolding m by blast
  from h m a b c d show ?thesis by (intro conjI)
qed

text \<open>
  C9, as amended. Take an instance and a fabric for which the invariant holds: the stored
  state is absent or one of the three states, and the port map is present exactly when
  the state is \<open>FS_MGMT_MAPPED\<close> or \<open>FS_INST_MAPPED\<close>. Then it holds again after \<open>wwpns\<close>,
  after \<open>disconnect_volume\<close> when that returns, after \<^verbatim>\<open>_get_fabric_state\<close> on any
  fabric, and after \<open>connect_volume\<close> provided the fabric, if it is a configured one, has
  a stored port map before the call (\<open>wwpns\<close> ran first).
\<close>

theorem fabric_invariant_preserved:
  assumes "fabric_invariant w f"
  shows "fabric_invariant (snd (wwpns env w)) f
         \<and> ((f \<in> set (fabric_names env) \<longrightarrow> get_fabric_meta w f \<noteq> None) \<longrightarrow>
              fabric_invariant (connect_volume env vm_uuid w) f)
         \<and> (\<forall>w'. disconnect_volume env w = Inr w' \<longrightarrow> fabric_invariant w' f)
         \<and> fabric_invariant (snd (get_fabric_state w g)) f"
  using assms
  by (auto simp: wwpns_invariant get_fabric_state_invariant
        intro: connect_volume_invariant disconnect_volume_invariant)

theorem fabric_invariant_preserved_witness:
  "fabric_invariant parked_instance ''A''
   \<and> get_fabric_meta parked_instance ''A'' = Some [(''P1'', ''a0 b0'')]
   \<and> stored_state parked_instance ''A'' = FS_MGMT_MAPPED
   \<and> fabric_invariant (snd (wwpns example_env parked_instance)) ''A''
   \<and> fabric_invariant attached_instance ''A''
   \<and> disconnect_volume example_env parked_instance = Inr parked_instance
   \<and> fabric_invariant (snd (get_fabric_state parked_instance ''B'')) ''A''"
proof -
  have m: "get_fabric_meta parked_instance ''A'' = Some [(''P1'', ''a0 b0'')]"
    by (simp add: parked_simps)
  have s: "stored_state parked_instance ''A'' = FS_MGMT_MAPPED"
    by (simp add: parked_simps)
  from m s have h: "fabric_invariant parked_instance ''A''"
    by (simp add: fabric_invariant_def)
  note t = fabric_invariant_preserved [OF h, of example_env "''vm''" "''B''"]
  from t have 1: "fabric_invariant (snd (wwpns example_env parked_instance)) ''A''"
    by (rule conjunct1)
  from t m have 2: "fabric_invariant attached_instance ''A''"
    by (simp add: attached_instance_def)
  have 3: "disconnect_volume example_env parked_instance = Inr parked_instance"
    by (simp add: disconnect_volume_def in_disconnect_states_def parked_instance_def
        wwpns_example)
  from t have 4: "fabric_invariant (snd (get_fabric_state parked_instance ''B'')) ''A''"
    by blast
  from h m s 1 2 3 4 show ?thesis by (intro conjI)
qed

text \<open>
  The claim C9 as the spec states it fails at the call boundary of an accessor:
  \<^verbatim>\<open>_set_fabric_meta\<close> on a fresh instance stores a port map while the state still reads
  \<open>FS_UNMAPPED\<close> (this is the world between the two calls in the loop of \<open>wwpns\<close>). And
  \<open>connect_volume\<close> on a fresh instance, for which \<open>wwpns\<close> never ran, ends with the state
  \<open>FS_INST_MAPPED\<close> and no port map, when the add call that is handed \<^verbatim>\<open>None\<close>
  returns.
\<close>

theorem set_fabric_meta_breaks_invariant:
  "fabric_invariant fresh_instance ''A''
   \<and> stored_state (set_fabric_meta fresh_instance ''A'' [(''P1'', ''a0 b0'')]) ''A'' = FS_UNMAPPED
   \<and> get_fabric_meta (set_fabric_meta fresh_instance ''A'' [(''P1'', ''a0 b0'')]) ''A''
       = Some [(''P1'', ''a0 b0'')]
   \<and> stored_state (connect_volume example_env ''vm'' fresh_instance) ''A'' = FS_INST_MAPPED
   \<and> get_fabric_meta (connect_volume example_env ''vm'' fresh_instance) ''A'' = None"
  by (simp add: fabric_invariant_def connect_volume_stored_state connect_volume_get_fabric_meta
      encode_port_map_def meta_elems_def decode_port_map_def is_space_def Let_def)

text \<open>
  C4. \<open>disconnect_volume\<close> returns without a call unless the task state is one of
  \<open>TASK_STATES_FOR_DISCONNECT\<close>, and then it issues one remove call for the port maps of
  all fabrics (lemma \<open>disconnect_volume_eq\<close>). But when a configured fabric has no stored
  port map, \<^verbatim>\<open>npiv_port_mappings.extend(None)\<close> raises \<^verbatim>\<open>TypeError\<close> before any
  mapping is removed: here fabric B was added after fabric A got its port map, and the
  instance is being deleted.
\<close>

theorem disconnect_volume_missing_port_map:
  "in_disconnect_states (task_state (half_provisioned\<lparr>task_state := Some ''deleting''\<rparr>))
   \<and> get_fabric_meta (half_provisioned\<lparr>task_state := Some ''deleting''\<rparr>) ''B'' = None
   \<and> disconnect_volume example_env (half_provisioned\<lparr>task_state := Some ''deleting''\<rparr>)
       = Inl TypeError"
  by (simp add: disconnect_volume_def in_disconnect_states_def TASK_STATES_FOR_DISCONNECT_def
      get_fabric_meta_def half_provisioned_def)

end
